theory Spec2Isabelle
  imports Complex_Main "HOL-Library.Sublist" "HOL-Library.AList" "HOL-Library.Multiset"
begin

section \<open>Python values used by the pipeline\<close>

subsection \<open>Text\<close>

text \<open>
  A Python \<open>str\<close> is modelled as a \<open>string\<close> whose characters are the code points
  below 256 (Latin-1).  On this range \<open>str.lower\<close> maps \<open>A..Z\<close>, \<open>U+00C0..U+00D6\<close> and
  \<open>U+00D8..U+00DE\<close> to the code point 32 above and leaves every other character
  alone, and the characters for which \<open>str.isspace\<close> holds (the separators of
  \<open>str.split()\<close> and \<open>str.strip()\<close>) are the twelve listed below.
\<close>

definition lower_char :: "char \<Rightarrow> char" where
  "lower_char c =
     (let n = (of_char c :: nat)
      in if (65 \<le> n \<and> n \<le> 90) \<or> (192 \<le> n \<and> n \<le> 214) \<or> (216 \<le> n \<and> n \<le> 222)
         then char_of (n + 32) else c)"

definition lower :: "string \<Rightarrow> string" where
  "lower s = map lower_char s"

definition isspace :: "char \<Rightarrow> bool" where
  "isspace c = ((of_char c :: nat) \<in> {9, 10, 11, 12, 13, 28, 29, 30, 31, 32, 133, 160})"

definition strip :: "string \<Rightarrow> string" where
  "strip s = rev (dropWhile isspace (rev (dropWhile isspace s)))"

text \<open>The substring test \<open>k in s\<close> of Python, as a scan over the start positions.\<close>

fun py_in :: "string \<Rightarrow> string \<Rightarrow> bool" where
  "py_in k [] = (k = [])"
| "py_in k (c # cs) = (prefix k (c # cs) \<or> py_in k cs)"

text \<open>
  \<open>s.split(None, maxsplit)\<close>: leading whitespace is skipped, a field runs to the next
  whitespace, and once \<open>maxsplit\<close> fields have been cut the rest of the line,
  without its leading whitespace, is the last field (trailing whitespace included).
\<close>

fun split_ws :: "nat \<Rightarrow> string \<Rightarrow> string list" where
  "split_ws 0 s =
     (let r = dropWhile isspace s in if r = [] then [] else [r])"
| "split_ws (Suc n) s =
     (let r = dropWhile isspace s
      in if r = [] then []
         else takeWhile (\<lambda>c. \<not> isspace c) r # split_ws n (dropWhile (\<lambda>c. \<not> isspace c) r))"

subsection \<open>Floating-point numbers\<close>

text \<open>
  A Python \<open>float\<close> is a finite number, one of the two infinities, or NaN.  A finite
  float is modelled by the real number it denotes: rounding to 53 bits, overflow
  of a literal to infinity and the sign of zero are not modelled.  Comparisons
  follow IEEE 754: every ordering comparison with NaN is false.
\<close>

datatype pyfloat = Fin real | PInf | NInf | NaN

fun flt :: "pyfloat \<Rightarrow> pyfloat \<Rightarrow> bool" where
  "flt NaN b = False"
| "flt a NaN = False"
| "flt (Fin a) (Fin b) = (a < b)"
| "flt (Fin a) PInf = True"
| "flt (Fin a) NInf = False"
| "flt PInf b = False"
| "flt NInf (Fin b) = True"
| "flt NInf PInf = True"
| "flt NInf NInf = False"

fun fle :: "pyfloat \<Rightarrow> pyfloat \<Rightarrow> bool" where
  "fle NaN b = False"
| "fle a NaN = False"
| "fle (Fin a) (Fin b) = (a \<le> b)"
| "fle (Fin a) PInf = True"
| "fle (Fin a) NInf = False"
| "fle PInf (Fin b) = False"
| "fle PInf PInf = True"
| "fle PInf NInf = False"
| "fle NInf b = True"

fun fmul :: "pyfloat \<Rightarrow> pyfloat \<Rightarrow> pyfloat" where
  "fmul NaN b = NaN"
| "fmul a NaN = NaN"
| "fmul (Fin a) (Fin b) = Fin (a * b)"
| "fmul (Fin a) PInf = (if 0 < a then PInf else if a < 0 then NInf else NaN)"
| "fmul (Fin a) NInf = (if 0 < a then NInf else if a < 0 then PInf else NaN)"
| "fmul PInf (Fin b) = (if 0 < b then PInf else if b < 0 then NInf else NaN)"
| "fmul NInf (Fin b) = (if 0 < b then NInf else if b < 0 then PInf else NaN)"
| "fmul PInf PInf = PInf"
| "fmul PInf NInf = NInf"
| "fmul NInf PInf = NInf"
| "fmul NInf NInf = PInf"

text \<open>\<open>min(a, b)\<close> keeps its first argument unless the second is smaller.\<close>

definition py_min :: "pyfloat \<Rightarrow> pyfloat \<Rightarrow> pyfloat" where
  "py_min a b = (if flt b a then b else a)"

text \<open>
  \<open>math.log10\<close>: \<open>None\<close> stands for the \<open>ValueError\<close> ("math domain error") raised on
  zero, on a negative number and on minus infinity.
\<close>

fun log10 :: "pyfloat \<Rightarrow> pyfloat option" where
  "log10 (Fin x) = (if 0 < x then Some (Fin (log 10 x)) else None)"
| "log10 PInf = Some PInf"
| "log10 NInf = None"
| "log10 NaN = Some NaN"

subsection \<open>Exceptions\<close>

text \<open>The exceptions that leave a function of the pipeline; \<open>Inl\<close> carries them.\<close>

datatype error = FileNotFoundError | ValueError | OSError

section \<open>The classifier (\<open>cas_typing.py\<close>)\<close>

text \<open>
  A hit is the dictionary built by \<open>HMMERSearch.parse_results\<close>; a classification
  is the dictionary built in the loop of \<open>CASTyping.classify_proteins\<close>.
\<close>

record hit =
  query_name :: string
  target_name :: string
  e_value :: pyfloat
  score :: pyfloat
  hmm_model :: string

record classification =
  r_type :: string
  r_confidence :: string
  r_e_value :: pyfloat
  r_score :: pyfloat
  r_probability :: pyfloat
  r_hmm_model :: string

text \<open>Lines 91--96: the confidence tier.\<close>

definition confidence :: "pyfloat \<Rightarrow> string" where
  "confidence ev =
     (if fle ev (Fin (1 / 10 ^ 10)) then ''High''
      else if fle ev (Fin (1 / 10 ^ 5)) then ''Medium''
      else ''Low'')"

text \<open>Lines 102--105: the probability score; \<open>None\<close> if \<open>math.log10\<close> raises.\<close>

definition prob_score :: "pyfloat \<Rightarrow> pyfloat option" where
  "prob_score ev =
     (if flt (Fin 0) ev
      then (case log10 ev of
              None \<Rightarrow> None
            | Some l \<Rightarrow> Some (py_min (Fin 100) (fmul (Fin (- 10)) l)))
      else Some (Fin 100))"

text \<open>
  Lines 108--112: the scan of the type mapping, a dictionary read in insertion
  order, stopping at the first key that occurs in the model name.
\<close>

fun cas_type :: "(string \<times> string) list \<Rightarrow> string \<Rightarrow> string" where
  "cas_type [] hmm = ''Unknown''"
| "cas_type ((key, type_value) # rest) hmm =
     (if py_in (lower key) (lower hmm) then type_value else cas_type rest hmm)"

text \<open>One pass of the loop body, lines 85--122.\<close>

definition classify_one :: "(string \<times> string) list \<Rightarrow> hit \<Rightarrow> classification option" where
  "classify_one cas_type_mapping protein =
     (let hmm = lower (target_name protein);
          ev = e_value protein;
          sc = score protein
      in case prob_score ev of
           None \<Rightarrow> None
         | Some p \<Rightarrow>
             Some \<lparr> r_type = cas_type cas_type_mapping hmm,
                    r_confidence = confidence ev,
                    r_e_value = ev,
                    r_score = sc,
                    r_probability = p,
                    r_hmm_model = hmm \<rparr>)"

text \<open>
  The loop of \<open>classify_proteins\<close>.  The result dictionary is an association list
  in insertion order; \<open>classified_results[protein_id] = result\<close> replaces the value
  of a key that is already there and appends a new key otherwise.
\<close>

fun classify_loop ::
  "(string \<times> string) list \<Rightarrow> hit list \<Rightarrow> (string \<times> classification) list
     \<Rightarrow> (string \<times> classification) list option" where
  "classify_loop m [] classified_results = Some classified_results"
| "classify_loop m (protein # rest) classified_results =
     (case classify_one m protein of
        None \<Rightarrow> None
      | Some result \<Rightarrow>
          classify_loop m rest (AList.update (query_name protein) result classified_results))"

definition classify_proteins ::
  "(string \<times> string) list \<Rightarrow> hit list \<Rightarrow> (string \<times> classification) list option" where
  "classify_proteins m identified_proteins = classify_loop m identified_proteins []"

text \<open>A sample hit with a given e-value, for the concrete evaluations below.\<close>

definition hit_ev :: "pyfloat \<Rightarrow> hit" where
  "hit_ev ev = \<lparr> query_name = ''protA'', target_name = ''Cas9_TIGR'', e_value = ev,
                 score = Fin 5, hmm_model = ''model1'' \<rparr>"

section \<open>The result parser (\<open>hmmer_search.py\<close>)\<close>

subsection \<open>The built-in \<open>float\<close> on text\<close>

text \<open>
  \<open>float(s)\<close> strips whitespace, accepts an underscore only between two digits and
  drops it, and then reads an optional sign followed by \<open>inf\<close>, \<open>infinity\<close> or
  \<open>nan\<close> in any letter case, or by a decimal numeral with at least one digit, an
  optional point and an optional exponent.  \<open>None\<close> stands for \<open>ValueError\<close>.
\<close>

definition isdigit :: "char \<Rightarrow> bool" where
  "isdigit c = (48 \<le> (of_char c :: nat) \<and> (of_char c :: nat) \<le> 57)"

definition digit_val :: "char \<Rightarrow> nat" where
  "digit_val c = of_char c - 48"

definition digits_val :: "string \<Rightarrow> nat" where
  "digits_val ds = foldl (\<lambda>a c. 10 * a + digit_val c) 0 ds"

definition ascii_lower :: "char \<Rightarrow> char" where
  "ascii_lower c =
     (let n = (of_char c :: nat) in if 65 \<le> n \<and> n \<le> 90 then char_of (n + 32) else c)"

fun underscores_ok :: "char option \<Rightarrow> string \<Rightarrow> bool" where
  "underscores_ok prev [] = (prev \<noteq> Some CHR ''_'')"
| "underscores_ok prev (c # cs) =
     (if c = CHR ''_''
      then (case prev of None \<Rightarrow> False | Some d \<Rightarrow> isdigit d \<and> underscores_ok (Some c) cs)
      else if prev = Some CHR ''_'' \<and> \<not> isdigit c then False
      else underscores_ok (Some c) cs)"

definition sign_split :: "string \<Rightarrow> bool \<times> string" where
  "sign_split s =
     (case s of
        [] \<Rightarrow> (False, [])
      | c # r \<Rightarrow> if c = CHR ''-'' then (True, r) else if c = CHR ''+'' then (False, r) else (False, s))"

definition scale10 :: "nat \<Rightarrow> int \<Rightarrow> real" where
  "scale10 n k = (if 0 \<le> k then real n * 10 ^ nat k else real n / 10 ^ nat (- k))"

definition parse_exponent :: "nat \<Rightarrow> nat \<Rightarrow> string \<Rightarrow> real option" where
  "parse_exponent n fl r =
     (case r of
        [] \<Rightarrow> Some (scale10 n (- int fl))
      | c # es \<Rightarrow>
          if c = CHR ''e'' \<or> c = CHR ''E''
          then (let (eneg, ed) = sign_split es
                in if ed \<noteq> [] \<and> list_all isdigit ed
                   then Some (scale10 n ((if eneg then - int (digits_val ed) else int (digits_val ed))
                                           - int fl))
                   else None)
          else None)"

definition parse_decimal :: "string \<Rightarrow> real option" where
  "parse_decimal body =
     (let ip = takeWhile isdigit body;
          r1 = dropWhile isdigit body;
          (fp, r2) = (case r1 of
                        [] \<Rightarrow> ([], [])
                      | c # r \<Rightarrow> if c = CHR ''.''
                                then (takeWhile isdigit r, dropWhile isdigit r)
                                else ([], r1))
      in if ip = [] \<and> fp = [] then None
         else parse_exponent (digits_val (ip @ fp)) (length fp) r2)"

definition py_float :: "string \<Rightarrow> pyfloat option" where
  "py_float s =
     (let t = strip s
      in if \<not> underscores_ok None t then None
         else (let (neg, body) = sign_split (filter (\<lambda>c. c \<noteq> CHR ''_'') t);
                   lb = map ascii_lower body
               in if lb = ''inf'' \<or> lb = ''infinity'' then Some (if neg then NInf else PInf)
                  else if lb = ''nan'' then Some NaN
                  else (case parse_decimal body of
                          None \<Rightarrow> None
                        | Some x \<Rightarrow> Some (Fin (if neg then - x else x)))))"

subsection \<open>\<open>HMMERSearch.parse_results\<close>\<close>

text \<open>
  One pass of the loop body, lines 131--166: \<open>None\<close> is a \<open>continue\<close>.  Both
  \<open>ValueError\<close> handlers are the \<open>None\<close> branches of \<open>py_float\<close>; no other operation
  of the body can raise on text, so the outer handler is never entered.
\<close>

definition parse_line :: "string \<Rightarrow> string \<Rightarrow> hit option" where
  "parse_line line hmm_name =
     (if prefix ''#'' line \<or> strip line = [] then None
      else (let parts = split_ws 22 line
            in if length parts < 9 then None
               else (let qn = parts ! 0;
                         tn = parts ! 2;
                         tn' = (if tn = ''-'' then hmm_name else tn);
                         ev = (case py_float (parts ! 4) of None \<Rightarrow> PInf | Some x \<Rightarrow> x);
                         sc = (case py_float (parts ! 5) of None \<Rightarrow> Fin 0 | Some x \<Rightarrow> x)
                     in Some \<lparr> query_name = qn, target_name = tn', e_value = ev,
                               score = sc, hmm_model = hmm_name \<rparr>)))"

fun parse_loop :: "string list \<Rightarrow> string \<Rightarrow> hit list \<Rightarrow> hit list" where
  "parse_loop [] hmm_name results = results"
| "parse_loop (line # rest) hmm_name results =
     (case parse_line line hmm_name of
        None \<Rightarrow> parse_loop rest hmm_name results
      | Some result \<Rightarrow> parse_loop rest hmm_name (results @ [result]))"

definition parse_results :: "string list \<Rightarrow> string \<Rightarrow> hit list" where
  "parse_results hmmer_output hmm_name = parse_loop hmmer_output hmm_name []"

subsection \<open>The parser as the specification words it\<close>

text \<open>
  The whitespace-separated fields of a line, all of them (\<open>line.split()\<close>), and the
  parser described on them: a line yields a hit when it does not start with \<open>#\<close>,
  is not blank and has at least nine fields; the hit is read off fields 0, 2, 4
  and 5.
\<close>

function ws_fields :: "string \<Rightarrow> string list" where
  "ws_fields s =
     (if dropWhile isspace s = [] then []
      else takeWhile (\<lambda>c. \<not> isspace c) (dropWhile isspace s)
             # ws_fields (dropWhile (\<lambda>c. \<not> isspace c) (dropWhile isspace s)))"
  by pat_completeness auto
termination
proof (relation "measure length")
  show "wf (measure length)" by simp
next
  fix s :: string
  assume ne: "dropWhile isspace s \<noteq> []"
  then obtain c cs where r: "dropWhile isspace s = c # cs"
    by (cases "dropWhile isspace s") auto
  have "\<not> isspace (hd (dropWhile isspace s))" using ne by (rule hd_dropWhile)
  then have "\<not> isspace c" using r by simp
  then have "dropWhile (\<lambda>c. \<not> isspace c) (c # cs) = dropWhile (\<lambda>c. \<not> isspace c) cs"
    by simp
  moreover have "length (dropWhile (\<lambda>c. \<not> isspace c) cs) \<le> length cs"
    by (rule length_dropWhile_le)
  moreover have "length (c # cs) \<le> length s"
    using length_dropWhile_le [of isspace s] r by simp
  ultimately show "(dropWhile (\<lambda>c. \<not> isspace c) (dropWhile isspace s), s) \<in> measure length"
    using r by simp
qed

declare ws_fields.simps [simp del]

definition yields_hit :: "string \<Rightarrow> bool" where
  "yields_hit line =
     (\<not> prefix ''#'' line \<and> \<not> list_all isspace line \<and> 9 \<le> length (ws_fields line))"

definition spec_hit :: "string \<Rightarrow> string \<Rightarrow> hit" where
  "spec_hit hmm_name line =
     \<lparr> query_name = ws_fields line ! 0,
       target_name = (if ws_fields line ! 2 = ''-'' then hmm_name else ws_fields line ! 2),
       e_value = (case py_float (ws_fields line ! 4) of None \<Rightarrow> PInf | Some x \<Rightarrow> x),
       score = (case py_float (ws_fields line ! 5) of None \<Rightarrow> Fin 0 | Some x \<Rightarrow> x),
       hmm_model = hmm_name \<rparr>"

definition spec_parse_results :: "string list \<Rightarrow> string \<Rightarrow> hit list" where
  "spec_parse_results hmmer_output hmm_name = map (spec_hit hmm_name) (filter yields_hit hmmer_output)"

section \<open>The search dispatcher (\<open>hmmer_search.py\<close>)\<close>







section \<open>The report (\<open>CASTyping.generate_report\<close>)\<close>

text \<open>Lines 141--146: the per-type counts, a dictionary in insertion order.\<close>

fun count_loop :: "(string \<times> classification) list \<Rightarrow> (string \<times> nat) list \<Rightarrow> (string \<times> nat) list" where
  "count_loop [] type_counts = type_counts"
| "count_loop ((protein_id, result) # rest) type_counts =
     (case map_of type_counts (r_type result) of
        None \<Rightarrow>
          count_loop rest
            (AList.update (r_type result) (0 + 1) (AList.update (r_type result) 0 type_counts))
      | Some n \<Rightarrow> count_loop rest (AList.update (r_type result) (n + 1) type_counts))"

text \<open>
  Lines 160--164: \<open>sorted(..., reverse=True)\<close> is stable, so rows of equal
  probability keep their order; the probabilities are never NaN.
\<close>

fun insort_desc ::
  "(string \<times> classification) \<Rightarrow> (string \<times> classification) list \<Rightarrow> (string \<times> classification) list" where
  "insort_desc x [] = [x]"
| "insort_desc x (y # ys) =
     (if flt (r_probability (snd x)) (r_probability (snd y)) then y # insort_desc x ys
      else x # y # ys)"

definition sorted_results :: "(string \<times> classification) list \<Rightarrow> (string \<times> classification) list" where
  "sorted_results results = foldr insort_desc results []"

text \<open>\<open>'{}'.format(n)\<close> for a count, and \<open>sep.join(xs)\<close>.\<close>

fun str_nat :: "nat \<Rightarrow> string" where
  "str_nat n = (if n < 10 then [char_of (48 + n)] else str_nat (n div 10) @ [char_of (48 + n mod 10)])"

declare str_nat.simps [simp del]

fun join :: "string \<Rightarrow> string list \<Rightarrow> string" where
  "join sep [] = []"
| "join sep [x] = x"
| "join sep (x # y # ys) = x @ sep @ join sep (y # ys)"

text \<open>
  Lines 149--174.  The two float formats \<open>{:.1f}\<close> and \<open>{:.4g}\<close> are parameters.
\<close>

definition report_lines ::
  "(pyfloat \<Rightarrow> string) \<Rightarrow> (pyfloat \<Rightarrow> string) \<Rightarrow> (string \<times> classification) list \<Rightarrow> string list" where
  "report_lines fmt_1f fmt_4g results =
     [''# CRISPR-Cas Protein Classification Report'', []]
     @ [''## Summary'']
     @ [''Number of proteins analyzed: '' @ str_nat (length results)]
     @ [[]]
     @ [''## Type Distribution'']
     @ map (\<lambda>(ct, count). ''- '' @ ct @ '': '' @ str_nat count @ '' proteins'') (count_loop results [])
     @ [[]]
     @ [''## Detailed Results (Sorted by Probability)'']
     @ map (\<lambda>(protein_id, result).
              ''- '' @ protein_id @ '': '' @ r_type result
              @ '' (Confidence: '' @ r_confidence result
              @ '', Probability: '' @ fmt_1f (r_probability result)
              @ ''%, E-value: '' @ fmt_4g (r_e_value result) @ '')'')
           (sorted_results results)"

text \<open>
  Lines 178--179, \<open>open(output_file, 'w')\<close> and the write.  \<open>files\<close> maps a path to
  its text.  A path that holds a NUL character is refused with \<open>ValueError\<close> on
  every system; for any other path the file system decides, and \<open>writable\<close> tells
  whether the path can be opened for writing and written (\<open>OSError\<close> when it
  cannot: a directory, a missing parent directory, no permission).
\<close>

definition write_file ::
  "(string \<Rightarrow> bool) \<Rightarrow> string \<Rightarrow> string \<Rightarrow> (string \<rightharpoonup> string) \<Rightarrow> error + (string \<rightharpoonup> string)" where
  "write_file writable path content files =
     (if CHR 0x00 \<in> set path then Inl ValueError
      else if writable path then Inr (files(path \<mapsto> content))
      else Inl OSError)"

text \<open>
  \<open>generate_report\<close> with the files it writes.  \<open>output_file\<close> is \<open>None\<close> for Python's
  \<open>None\<close>; an empty path is falsy as well.  Nothing catches an exception of the
  write, so it leaves the function (\<open>Inl\<close>) before line 181 is reached.  The value
  returned on line 181 is a literal, a line feed followed by \<open>.join(report)\<close>.
\<close>

definition generate_report ::
  "(pyfloat \<Rightarrow> string) \<Rightarrow> (pyfloat \<Rightarrow> string) \<Rightarrow> (string \<Rightarrow> bool) \<Rightarrow> (string \<times> string) list
     \<Rightarrow> hit list \<Rightarrow> string option \<Rightarrow> (string \<rightharpoonup> string)
     \<Rightarrow> error + (string \<times> (string \<rightharpoonup> string))" where
  "generate_report fmt_1f fmt_4g writable m identified_proteins output_file files =
     (case classify_proteins m identified_proteins of
        None \<Rightarrow> Inl ValueError
      | Some results \<Rightarrow>
          (let report = report_lines fmt_1f fmt_4g results;
               written = (case output_file of
                            None \<Rightarrow> Inr files
                          | Some path \<Rightarrow>
                              if path = [] then Inr files
                              else write_file writable path (join [CHR 0x0A] report) files)
           in case written of
                Inl e \<Rightarrow> Inl e
              | Inr files' \<Rightarrow> Inr (CHR 0x0A # ''.join(report)'', files')))"

text \<open>A sample float format and two sample file systems, for the concrete runs below.\<close>

definition fmt_none :: "pyfloat \<Rightarrow> string" where
  "fmt_none x = []"

definition all_writable :: "string \<Rightarrow> bool" where
  "all_writable path = True"

definition none_writable :: "string \<Rightarrow> bool" where
  "none_writable path = False"

section \<open>Properties of the classifier\<close>

lemma prob_score_total: "\<exists>p. prob_score ev = Some p"
  by (cases ev) (auto simp: prob_score_def)

lemma classify_one_Some:
  "\<exists>p. prob_score (e_value protein) = Some p \<and>
       classify_one m protein =
         Some \<lparr> r_type = cas_type m (lower (target_name protein)),
                r_confidence = confidence (e_value protein),
                r_e_value = e_value protein,
                r_score = score protein,
                r_probability = p,
                r_hmm_model = lower (target_name protein) \<rparr>"
proof -
  obtain p where "prob_score (e_value protein) = Some p"
    using prob_score_total by blast
  then show ?thesis by (simp add: classify_one_def Let_def)
qed

lemma confidence_High: "confidence ev = ''High'' \<longleftrightarrow> fle ev (Fin (1 / 10 ^ 10))"
  by (simp add: confidence_def)

lemma confidence_Medium:
  "confidence ev = ''Medium'' \<longleftrightarrow> flt (Fin (1 / 10 ^ 10)) ev \<and> fle ev (Fin (1 / 10 ^ 5))"
  by (cases ev) (auto simp: confidence_def)

lemma confidence_Low:
  "confidence ev = ''Low'' \<longleftrightarrow>
     \<not> fle ev (Fin (1 / 10 ^ 10)) \<and> \<not> (flt (Fin (1 / 10 ^ 10)) ev \<and> fle ev (Fin (1 / 10 ^ 5)))"
  by (cases ev) (auto simp: confidence_def)

text \<open>
  Claim C7.  Every hit is classified, and its confidence tier is High exactly when
  its e-value is at most \<open>1e-10\<close>, Medium exactly when the e-value is above \<open>1e-10\<close>
  and at most \<open>1e-5\<close>, and Low in every other case (a NaN e-value included).  The
  thresholds are the same for every hit: the model that produced it plays no part.
\<close>

theorem confidence_tiers:
  "\<exists>r. classify_one m protein = Some r
     \<and> (r_confidence r = ''High'' \<longleftrightarrow> fle (e_value protein) (Fin (1 / 10 ^ 10)))
     \<and> (r_confidence r = ''Medium'' \<longleftrightarrow>
          flt (Fin (1 / 10 ^ 10)) (e_value protein) \<and> fle (e_value protein) (Fin (1 / 10 ^ 5)))
     \<and> (r_confidence r = ''Low'' \<longleftrightarrow>
          \<not> fle (e_value protein) (Fin (1 / 10 ^ 10))
          \<and> \<not> (flt (Fin (1 / 10 ^ 10)) (e_value protein) \<and> fle (e_value protein) (Fin (1 / 10 ^ 5))))"
proof -
  obtain p where c: "classify_one m protein =
         Some \<lparr> r_type = cas_type m (lower (target_name protein)),
                r_confidence = confidence (e_value protein),
                r_e_value = e_value protein,
                r_score = score protein,
                r_probability = p,
                r_hmm_model = lower (target_name protein) \<rparr>"
    using classify_one_Some by blast
  show ?thesis
    unfolding c using confidence_High confidence_Medium confidence_Low by simp
qed

lemma prob_score_pos: "0 < x \<Longrightarrow> prob_score (Fin x) = Some (Fin (min 100 (- 10 * log 10 x)))"
  by (auto simp: prob_score_def py_min_def min_def)

lemma prob_score_nonpos: "x \<le> 0 \<Longrightarrow> prob_score (Fin x) = Some (Fin 100)"
  by (auto simp: prob_score_def)

lemma prob_score_PInf: "prob_score PInf = Some NInf"
  by (simp add: prob_score_def py_min_def)

lemma prob_score_NInf: "prob_score NInf = Some (Fin 100)"
  by (simp add: prob_score_def)

lemma prob_score_NaN: "prob_score NaN = Some (Fin 100)"
  by (simp add: prob_score_def)

lemma min_log_mono:
  assumes "0 < x" "x < (y::real)"
  shows "min 100 (- 10 * log 10 y) \<le> min 100 (- 10 * log 10 x)"
proof -
  have "log 10 x \<le> log 10 y" using assms by simp
  then have "- 10 * log 10 y \<le> - 10 * log 10 x" by linarith
  then show ?thesis by (rule min.mono [OF order_refl])
qed

lemma prob_score_cases:
  "prob_score ev = Some p \<Longrightarrow> (\<exists>z. p = Fin z \<and> z \<le> 100) \<or> p = NInf"
  apply (cases ev)
     apply (simp_all add: prob_score_def py_min_def split: if_splits)
   apply auto
  done

lemma prob_score_le_100: "prob_score ev = Some p \<Longrightarrow> fle p (Fin 100)"
  using prob_score_cases [of ev p] by auto

lemma prob_score_not_NaN: "prob_score ev = Some p \<Longrightarrow> fle NInf p"
  using prob_score_cases [of ev p] by auto

lemma prob_score_nonpos_ev:
  assumes "\<not> flt (Fin 0) ev"
  shows "prob_score ev = Some (Fin 100)"
  using assms by (simp add: prob_score_def)

lemma prob_score_mono:
  assumes lt: "flt e1 e2" and p1: "prob_score e1 = Some p1" and p2: "prob_score e2 = Some p2"
  shows "fle p2 p1"
proof (cases "flt (Fin 0) e1")
  case False
  then have "p1 = Fin 100" using p1 by (simp add: prob_score_nonpos_ev)
  then show ?thesis using prob_score_le_100 [OF p2] by simp
next
  case True
  then obtain x where e1: "e1 = Fin x" and x: "0 < x"
    using lt by (cases e1; cases e2) auto
  show ?thesis
  proof (cases e2)
    case (Fin y)
    then have xy: "x < y" using lt e1 by simp
    then have y: "0 < y" using x by simp
    have "p1 = Fin (min 100 (- 10 * log 10 x))" using p1 e1 x by (simp add: prob_score_pos)
    moreover have "p2 = Fin (min 100 (- 10 * log 10 y))" using p2 Fin y by (simp add: prob_score_pos)
    ultimately show ?thesis using min_log_mono [OF x xy] by simp
  next
    case PInf
    then have "p2 = NInf" using p2 by (simp add: prob_score_PInf)
    then show ?thesis using prob_score_not_NaN [OF p1] by simp
  next
    case NInf
    then show ?thesis using lt e1 by simp
  next
    case NaN
    then show ?thesis using lt e1 by simp
  qed
qed


lemma classify_one_probability:
  "\<exists>r. classify_one m h = Some r \<and> prob_score (e_value h) = Some (r_probability r)
       \<and> r_e_value r = e_value h"
  using classify_one_Some [of h m] by auto

text \<open>
  Claim C6.  For a hit with a finite e-value \<open>x > 0\<close> the probability is
  \<open>min(100, -10 * log10 x)\<close>; for e-value \<open>+inf\<close> the same expression gives \<open>-inf\<close>;
  for e-value 0 the probability is 100.  Of two hits, the one with the larger
  e-value never gets the strictly larger probability.
\<close>

theorem probability_formula_monotone:
  "(e_value ha = Fin x \<and> 0 < x \<longrightarrow>
      (\<exists>r. classify_one m ha = Some r \<and> r_probability r = Fin (min 100 (- 10 * log 10 x))))
   \<and> (e_value hb = PInf \<longrightarrow> (\<exists>r. classify_one m hb = Some r \<and> r_probability r = NInf))
   \<and> (e_value hc = Fin 0 \<longrightarrow> (\<exists>r. classify_one m hc = Some r \<and> r_probability r = Fin 100))
   \<and> (flt (e_value h1) (e_value h2) \<longrightarrow>
        (\<exists>r1 r2. classify_one m h1 = Some r1 \<and> classify_one m h2 = Some r2
           \<and> fle (r_probability r2) (r_probability r1)
           \<and> \<not> flt (r_probability r1) (r_probability r2)))"
proof (intro conjI impI)
  assume "e_value ha = Fin x \<and> 0 < x"
  then show "\<exists>r. classify_one m ha = Some r \<and> r_probability r = Fin (min 100 (- 10 * log 10 x))"
    using classify_one_probability [of m ha] by (auto simp: prob_score_pos)
next
  assume "e_value hb = PInf"
  then show "\<exists>r. classify_one m hb = Some r \<and> r_probability r = NInf"
    using classify_one_probability [of m hb] by (auto simp: prob_score_PInf)
next
  assume "e_value hc = Fin 0"
  then show "\<exists>r. classify_one m hc = Some r \<and> r_probability r = Fin 100"
    using classify_one_probability [of m hc] by (auto simp: prob_score_nonpos)
next
  assume lt: "flt (e_value h1) (e_value h2)"
  obtain r1 where r1: "classify_one m h1 = Some r1" "prob_score (e_value h1) = Some (r_probability r1)"
    using classify_one_probability [of m h1] by blast
  obtain r2 where r2: "classify_one m h2 = Some r2" "prob_score (e_value h2) = Some (r_probability r2)"
    using classify_one_probability [of m h2] by blast
  have le: "fle (r_probability r2) (r_probability r1)"
    using prob_score_mono [OF lt r1(2) r2(2)] .
  have "\<not> flt (r_probability r1) (r_probability r2)"
    using le by (cases "r_probability r1"; cases "r_probability r2") auto
  then show "\<exists>r1 r2. classify_one m h1 = Some r1 \<and> classify_one m h2 = Some r2
           \<and> fle (r_probability r2) (r_probability r1)
           \<and> \<not> flt (r_probability r1) (r_probability r2)"
    using r1(1) r2(1) le by blast
qed

theorem probability_formula_monotone_witness:
  "e_value (hit_ev (Fin 1)) = Fin 1 \<and> (0::real) < 1
   \<and> e_value (hit_ev PInf) = PInf
   \<and> e_value (hit_ev (Fin 0)) = Fin 0
   \<and> flt (e_value (hit_ev (Fin 1))) (e_value (hit_ev (Fin 10)))
   \<and> map_option r_probability (classify_one [] (hit_ev (Fin 1))) = Some (Fin 0)
   \<and> map_option r_probability (classify_one [] (hit_ev PInf)) = Some NInf
   \<and> map_option r_probability (classify_one [] (hit_ev (Fin 0))) = Some (Fin 100)
   \<and> map_option r_probability (classify_one [] (hit_ev (Fin 10))) = Some (Fin (- 10))"
  using probability_formula_monotone
    [of "hit_ev (Fin 1)" 1 "[]" "hit_ev PInf" "hit_ev (Fin 0)" "hit_ev (Fin 1)" "hit_ev (Fin 10)"]
  by (simp add: hit_ev_def classify_one_def prob_score_def py_min_def Let_def)

text \<open>
  Claim C3 fails on the code.  The comment of line 98 announces a score in the
  interval 0--100, but line 103 bounds the score from above only: a hit with
  e-value 10, which \<open>hmmsearch\<close> reports under its default threshold, gets
  probability \<open>-10\<close>.
\<close>

theorem probability_negative_at_e_value_10:
  "map_option r_probability
     (classify_one [(''cas9'', ''Type II (Cas9)'')] (hit_ev (Fin 10))) = Some (Fin (- 10))
   \<and> \<not> fle (Fin 0) (Fin (- 10))"
  by (simp add: hit_ev_def classify_one_def prob_score_def py_min_def Let_def)

lemma py_in_sublist: "py_in k s \<longleftrightarrow> sublist k s"
  by (induction s) (auto simp: sublist_Cons_right)

lemma lower_char_idem: "lower_char (lower_char c) = lower_char c"
proof -
  have lt: "(of_char c :: nat) < 256" by (rule nat_of_char_less_256)
  show ?thesis
  proof (cases "lower_char c = c")
    case True
    then show ?thesis by simp
  next
    case False
    then have up: "lower_char c = char_of ((of_char c :: nat) + 32)"
      and rng: "(65 \<le> (of_char c :: nat) \<and> (of_char c :: nat) \<le> 90)
              \<or> (192 \<le> (of_char c :: nat) \<and> (of_char c :: nat) \<le> 214)
              \<or> (216 \<le> (of_char c :: nat) \<and> (of_char c :: nat) \<le> 222)"
      by (auto simp: lower_char_def Let_def split: if_splits)
    have "(of_char (lower_char c) :: nat) = of_char c + 32"
      using rng unfolding up by (auto simp: of_char_of)
    then show ?thesis
      using rng by (auto simp: lower_char_def [of "lower_char c"] Let_def)
  qed
qed

lemma lower_idem: "lower (lower s) = lower s"
  by (simp add: lower_def lower_char_idem)

lemma cas_type_find:
  "cas_type m hmm =
     (case find (\<lambda>(key, type_value). sublist (lower key) (lower hmm)) m of
        None \<Rightarrow> ''Unknown''
      | Some (key, type_value) \<Rightarrow> type_value)"
  by (induction m hmm rule: cas_type.induct) (auto simp: py_in_sublist)


lemma lower_fusion: "lower ''Cas3_Cas9_fusion'' = ''cas3_cas9_fusion''"
  by code_simp

lemma lower_cas3: "lower ''cas3'' = ''cas3''"
  by code_simp

lemma lower_cas9: "lower ''cas9'' = ''cas9''"
  by code_simp

lemma cas_type_lower: "cas_type m (lower hmm) = cas_type m hmm"
  by (induction m hmm rule: cas_type.induct) (auto simp: lower_idem)

text \<open>
  Claim C5.  The classifier lowercases the target name and gives the hit the label
  of the first key of the type mapping, in insertion order, whose lowercased text
  occurs in it as a contiguous substring; with no such key the label is
  \<open>Unknown\<close>.  For the name \<open>Cas3_Cas9_fusion\<close> and a mapping of the keys \<open>cas3\<close>
  and \<open>cas9\<close>, the label is that of the key inserted first.
\<close>

theorem label_first_matching_key:
  "(\<exists>r. classify_one m protein = Some r
      \<and> r_type r =
          (case find (\<lambda>(key, type_value). sublist (lower key) (lower (target_name protein))) m of
             None \<Rightarrow> ''Unknown''
           | Some (key, type_value) \<Rightarrow> type_value))
   \<and> map_option r_type
        (classify_one [(''cas3'', a), (''cas9'', b)] (protein\<lparr>target_name := ''Cas3_Cas9_fusion''\<rparr>))
       = Some a
   \<and> map_option r_type
        (classify_one [(''cas9'', b), (''cas3'', a)] (protein\<lparr>target_name := ''Cas3_Cas9_fusion''\<rparr>))
       = Some b"
proof (intro conjI)
  show "\<exists>r. classify_one m protein = Some r
      \<and> r_type r =
          (case find (\<lambda>(key, type_value). sublist (lower key) (lower (target_name protein))) m of
             None \<Rightarrow> ''Unknown''
           | Some (key, type_value) \<Rightarrow> type_value)"
    using classify_one_Some [of protein m] by (auto simp: cas_type_find lower_idem)
next
  have "cas_type [(''cas3'', a), (''cas9'', b)] ''Cas3_Cas9_fusion'' = a"
    by (simp add: lower_fusion lower_cas3)
  then show "map_option r_type
        (classify_one [(''cas3'', a), (''cas9'', b)] (protein\<lparr>target_name := ''Cas3_Cas9_fusion''\<rparr>))
       = Some a"
    using classify_one_Some [of "protein\<lparr>target_name := ''Cas3_Cas9_fusion''\<rparr>" "[(''cas3'', a), (''cas9'', b)]"]
    by (auto simp: cas_type_lower)
next
  have "cas_type [(''cas9'', b), (''cas3'', a)] ''Cas3_Cas9_fusion'' = b"
    by (simp add: lower_fusion lower_cas9)
  then show "map_option r_type
        (classify_one [(''cas9'', b), (''cas3'', a)] (protein\<lparr>target_name := ''Cas3_Cas9_fusion''\<rparr>))
       = Some b"
    using classify_one_Some [of "protein\<lparr>target_name := ''Cas3_Cas9_fusion''\<rparr>" "[(''cas9'', b), (''cas3'', a)]"]
    by (auto simp: cas_type_lower)
qed

lemma classify_loop_total: "\<exists>d. classify_loop m hits acc = Some d"
proof (induction hits arbitrary: acc)
  case Nil
  then show ?case by simp
next
  case (Cons p hits)
  obtain r where "classify_one m p = Some r" using classify_one_Some [of p m] by blast
  then show ?case using Cons.IH by simp
qed

lemma classify_loop_keys:
  "classify_loop m hits acc = Some d \<Longrightarrow> fst ` set d = fst ` set acc \<union> query_name ` set hits"
proof (induction hits arbitrary: acc)
  case Nil
  then show ?case by simp
next
  case (Cons p hits)
  then obtain r where r: "classify_one m p = Some r"
    and d: "classify_loop m hits (AList.update (query_name p) r acc) = Some d"
    by (auto split: option.splits)
  show ?case using Cons.IH [OF d] by (simp add: AList.dom_update)
qed

lemma classify_loop_distinct:
  "classify_loop m hits acc = Some d \<Longrightarrow> distinct (map fst acc) \<Longrightarrow> distinct (map fst d)"
proof (induction hits arbitrary: acc)
  case Nil
  then show ?case by simp
next
  case (Cons p hits)
  then obtain r where r: "classify_one m p = Some r"
    and d: "classify_loop m hits (AList.update (query_name p) r acc) = Some d"
    by (auto split: option.splits)
  show ?case using Cons.IH [OF d] Cons.prems(2) by (simp add: AList.distinct_update)
qed

lemma classify_loop_map_of:
  "classify_loop m hits acc = Some d \<Longrightarrow>
     map_of d pid =
       (case filter (\<lambda>p. query_name p = pid) hits of
          [] \<Rightarrow> map_of acc pid
        | p # ps \<Rightarrow> classify_one m (last (p # ps)))"
proof (induction hits arbitrary: acc)
  case Nil
  then show ?case by simp
next
  case (Cons h hits)
  then obtain r where r: "classify_one m h = Some r"
    and d: "classify_loop m hits (AList.update (query_name h) r acc) = Some d"
    by (auto split: option.splits)
  show ?case
    using Cons.IH [OF d] r
    by (auto simp: AList.update_conv' split: list.splits)
qed


lemma classify_proteins_dict:
  "\<exists>d. classify_proteins m hits = Some d
     \<and> distinct (map fst d)
     \<and> fst ` set d = query_name ` set hits
     \<and> (\<forall>pid. map_of d pid =
           (case filter (\<lambda>p. query_name p = pid) hits of
              [] \<Rightarrow> None
            | p # ps \<Rightarrow> classify_one m (last (p # ps))))"
proof -
  obtain d where d: "classify_loop m hits [] = Some d"
    using classify_loop_total by blast
  have mp: "map_of d pid =
           (case filter (\<lambda>p. query_name p = pid) hits of
              [] \<Rightarrow> None
            | p # ps \<Rightarrow> classify_one m (last (p # ps)))" for pid
    using classify_loop_map_of [OF d, of pid] by (simp split: list.splits)
  have "distinct (map fst d)" using classify_loop_distinct [OF d] by simp
  moreover have "fst ` set d = query_name ` set hits" using classify_loop_keys [OF d] by simp
  ultimately show ?thesis
    unfolding classify_proteins_def using d mp by blast
qed

lemma filter_query_nonempty:
  "pid \<in> query_name ` set hits \<Longrightarrow> filter (\<lambda>p. query_name p = pid) hits \<noteq> []"
  by (auto simp: filter_empty_conv)

text \<open>
  Claim C1, amended.  The result of \<open>classify_proteins\<close> is a dictionary keyed by
  the query name: it has one row per distinct query name, the row of the last
  hit with that name (a later hit replaces the row of an earlier one).  The number
  of rows is the number of distinct query names; it is at most the number of
  hits and equals it when the query names are pairwise distinct.
\<close>

theorem one_row_per_query_name:
  "\<exists>d. classify_proteins m hits = Some d
     \<and> distinct (map fst d)
     \<and> set (map fst d) = query_name ` set hits
     \<and> length d = card (query_name ` set hits)
     \<and> length d \<le> length hits
     \<and> (distinct (map query_name hits) \<longrightarrow> length d = length hits)
     \<and> (\<forall>pid \<in> query_name ` set hits.
           map_of d pid = classify_one m (last (filter (\<lambda>p. query_name p = pid) hits)))"
proof -
  obtain d where d: "classify_proteins m hits = Some d"
    and dist: "distinct (map fst d)"
    and keys: "fst ` set d = query_name ` set hits"
    and mp: "\<And>pid. map_of d pid =
           (case filter (\<lambda>p. query_name p = pid) hits of
              [] \<Rightarrow> None
            | p # ps \<Rightarrow> classify_one m (last (p # ps)))"
    using classify_proteins_dict [of m hits] by blast
  have len: "length d = card (query_name ` set hits)"
    using distinct_card [OF dist] keys by simp
  have le: "length d \<le> length hits"
    unfolding len using card_image_le [of "set hits" query_name] card_length [of hits] by simp
  have eq: "distinct (map query_name hits) \<longrightarrow> length d = length hits"
    unfolding len using distinct_card [of "map query_name hits"] by simp
  have last: "\<forall>pid \<in> query_name ` set hits.
           map_of d pid = classify_one m (last (filter (\<lambda>p. query_name p = pid) hits))"
  proof
    fix pid assume "pid \<in> query_name ` set hits"
    then obtain p ps where "filter (\<lambda>p. query_name p = pid) hits = p # ps"
      using filter_query_nonempty [of pid hits] by (cases "filter (\<lambda>p. query_name p = pid) hits") auto
    then show "map_of d pid = classify_one m (last (filter (\<lambda>p. query_name p = pid) hits))"
      using mp [of pid] by simp
  qed
  show ?thesis using d dist keys len le eq last by auto
qed

lemma lower_Cas9_TIGR: "lower ''Cas9_TIGR'' = ''cas9_tigr''"
  by code_simp

text \<open>
  Claim C2, amended.  The \<open>hmm_model\<close> field of a classification is the lowercased
  target name of the hit it was built from (line 86), not the hit's own
  \<open>hmm_model\<close> field: every row of the result dictionary comes from a hit of the
  input with the row's query name and carries that hit's lowercased target name.
\<close>

theorem hmm_model_is_lowered_target_name:
  "(\<exists>r. classify_one m protein = Some r \<and> r_hmm_model r = lower (target_name protein))
   \<and> (\<exists>d. classify_proteins m hits = Some d
        \<and> (\<forall>(pid, r) \<in> set d.
              \<exists>p \<in> set hits. query_name p = pid \<and> classify_one m p = Some r
                \<and> r_hmm_model r = lower (target_name p)))"
proof
  show "\<exists>r. classify_one m protein = Some r \<and> r_hmm_model r = lower (target_name protein)"
    using classify_one_Some [of protein m] by auto
next
  obtain d where d: "classify_proteins m hits = Some d"
    and dist: "distinct (map fst d)"
    and mp: "\<And>pid. map_of d pid =
           (case filter (\<lambda>p. query_name p = pid) hits of
              [] \<Rightarrow> None
            | p # ps \<Rightarrow> classify_one m (last (p # ps)))"
    using classify_proteins_dict [of m hits] by blast
  have "\<exists>p \<in> set hits. query_name p = pid \<and> classify_one m p = Some r
                \<and> r_hmm_model r = lower (target_name p)" if "(pid, r) \<in> set d" for pid r
  proof -
    have m: "map_of d pid = Some r" using that dist by simp
    then obtain p ps where f: "filter (\<lambda>p. query_name p = pid) hits = p # ps"
      using mp [of pid] by (cases "filter (\<lambda>p. query_name p = pid) hits") auto
    let ?q = "last (p # ps)"
    have "?q \<in> set (filter (\<lambda>p. query_name p = pid) hits)"
      unfolding f by (rule last_in_set) simp
    then have q: "?q \<in> set hits" "query_name ?q = pid" by auto
    have c: "classify_one m ?q = Some r" using m mp [of pid] f by simp
    then have "r_hmm_model r = lower (target_name ?q)"
      using classify_one_Some [of ?q m] by auto
    then show ?thesis using q c by blast
  qed
  then show "\<exists>d. classify_proteins m hits = Some d
        \<and> (\<forall>(pid, r) \<in> set d.
              \<exists>p \<in> set hits. query_name p = pid \<and> classify_one m p = Some r
                \<and> r_hmm_model r = lower (target_name p))"
    using d by auto
qed

subsection \<open>Concrete runs of the classifier\<close>

theorem one_row_per_query_name_witness:
  "distinct (map query_name [hit_ev (Fin 1), (hit_ev (Fin 10))\<lparr>query_name := ''protB''\<rparr>])
   \<and> ''protA'' \<in> query_name ` set [hit_ev (Fin 1), (hit_ev (Fin 10))\<lparr>query_name := ''protB''\<rparr>]
   \<and> map_option length
       (classify_proteins [] [hit_ev (Fin 1), (hit_ev (Fin 10))\<lparr>query_name := ''protB''\<rparr>]) = Some 2"
proof -
  let ?hits = "[hit_ev (Fin 1), (hit_ev (Fin 10))\<lparr>query_name := ''protB''\<rparr>]"
  have dist: "distinct (map query_name ?hits)" by (simp add: hit_ev_def)
  have mem: "''protA'' \<in> query_name ` set ?hits" by (simp add: hit_ev_def)
  obtain d where "classify_proteins [] ?hits = Some d"
    and "distinct (map query_name ?hits) \<longrightarrow> length d = length ?hits"
    using one_row_per_query_name [of "[]" ?hits] by blast
  then have "map_option length (classify_proteins [] ?hits) = Some 2"
    using dist by simp
  then show ?thesis using dist mem by blast
qed

theorem one_row_per_hit_counterexample:
  "map_option length
     (classify_proteins [(''cas9'', ''Type II (Cas9)'')]
        [hit_ev (Fin 1), (hit_ev (Fin 10))\<lparr>hmm_model := ''model2''\<rparr>]) = Some 1
   \<and> length [hit_ev (Fin 1), (hit_ev (Fin 10))\<lparr>hmm_model := ''model2''\<rparr>] = 2"
proof -
  let ?m = "[(''cas9'', ''Type II (Cas9)'')]"
  obtain r1 where r1: "classify_one ?m (hit_ev (Fin 1)) = Some r1"
    using classify_one_Some [of "hit_ev (Fin 1)" ?m] by blast
  obtain r2 where r2: "classify_one ?m ((hit_ev (Fin 10))\<lparr>hmm_model := ''model2''\<rparr>) = Some r2"
    using classify_one_Some [of "(hit_ev (Fin 10))\<lparr>hmm_model := ''model2''\<rparr>" ?m] by blast
  have q1: "query_name (hit_ev (Fin 1)) = ''protA''" by (simp add: hit_ev_def)
  have q2: "query_name ((hit_ev (Fin 10))\<lparr>hmm_model := ''model2''\<rparr>) = ''protA''"
    by (simp add: hit_ev_def)
  have "classify_proteins ?m [hit_ev (Fin 1), (hit_ev (Fin 10))\<lparr>hmm_model := ''model2''\<rparr>]
          = Some [(''protA'', r2)]"
    by (simp add: classify_proteins_def r1 r2 q1 q2)
  then show ?thesis by simp
qed

lemma hmm_model_hit_ev:
  "map_option r_hmm_model (classify_one m (hit_ev ev)) = Some ''cas9_tigr''"
proof -
  have "target_name (hit_ev ev) = ''Cas9_TIGR''" by (simp add: hit_ev_def)
  then show ?thesis
    using classify_one_Some [of "hit_ev ev" m] by (auto simp: lower_Cas9_TIGR)
qed

theorem hmm_model_is_lowered_target_name_witness:
  "map_option (map fst) (classify_proteins [] [hit_ev (Fin 1)]) = Some [''protA'']
   \<and> map_option (map (\<lambda>(pid, r). r_hmm_model r)) (classify_proteins [] [hit_ev (Fin 1)])
       = Some [''cas9_tigr'']
   \<and> map_option r_hmm_model (classify_one [] (hit_ev (Fin 1))) = Some ''cas9_tigr''"
proof -
  obtain r where r: "classify_one [] (hit_ev (Fin 1)) = Some r"
    and h: "r_hmm_model r = lower (target_name (hit_ev (Fin 1)))"
    using hmm_model_is_lowered_target_name [of "[]" "hit_ev (Fin 1)" "[hit_ev (Fin 1)]"] by blast
  have t: "lower (target_name (hit_ev (Fin 1))) = ''cas9_tigr''"
    by (simp add: hit_ev_def lower_Cas9_TIGR)
  have q: "query_name (hit_ev (Fin 1)) = ''protA''" by (simp add: hit_ev_def)
  have "classify_proteins [] [hit_ev (Fin 1)] = Some [(''protA'', r)]"
    by (simp add: classify_proteins_def r q)
  then show ?thesis using r h t by simp
qed

theorem hmm_model_is_source_model_counterexample:
  "map_option r_hmm_model (classify_one [(''cas9'', ''Type II (Cas9)'')] (hit_ev (Fin 1)))
     = Some ''cas9_tigr''
   \<and> hmm_model (hit_ev (Fin 1)) = ''model1''
   \<and> map_option r_hmm_model (classify_one [(''cas9'', ''Type II (Cas9)'')] (hit_ev (Fin 1)))
       \<noteq> Some (hmm_model (hit_ev (Fin 1)))"
proof -
  have a: "map_option r_hmm_model (classify_one [(''cas9'', ''Type II (Cas9)'')] (hit_ev (Fin 1)))
     = Some ''cas9_tigr''" by (rule hmm_model_hit_ev)
  have b: "hmm_model (hit_ev (Fin 1)) = ''model1''" by (simp add: hit_ev_def)
  show ?thesis unfolding a b by simp
qed

section \<open>Properties of the report\<close>

lemma report_lines_head:
  "\<exists>rest. report_lines f1 f4 results = ''# CRISPR-Cas Protein Classification Report'' # [] # rest"
  by (simp add: report_lines_def)

lemma join_head: "join sep (x # y # ys) = x @ sep @ join sep (y # ys)"
  by simp

lemma report_text_not_literal:
  "join [CHR 0x0A] (report_lines f1 f4 results) \<noteq> CHR 0x0A # ''.join(report)''"
proof -
  obtain rest where "report_lines f1 f4 results = ''# CRISPR-Cas Protein Classification Report'' # [] # rest"
    using report_lines_head by blast
  then have "hd (join [CHR 0x0A] (report_lines f1 f4 results)) = CHR ''#''"
    by simp
  then show ?thesis by auto
qed

text \<open>
  Claim C10, amended.  Whatever the hits, the mapping and the float formats:
  when \<open>output_file\<close> is \<open>None\<close> or empty, \<open>generate_report\<close> returns the fixed text
  of line 181, a line feed followed by \<open>.join(report)\<close>, and writes nothing; when
  \<open>output_file\<close> is a path that can be opened and written, it writes the report
  lines joined by line feeds to that file and returns the same fixed text, which
  is not the text written; when the path cannot be opened (it holds a NUL
  character, or the file system refuses it), the exception of \<open>open\<close> leaves the
  function and nothing is returned.  So every call either raises or returns the
  one fixed text.
\<close>

theorem generate_report_returns_literal:
  "\<exists>results. classify_proteins m hits = Some results
     \<and> generate_report f1 f4 w m hits output_file files =
         (case output_file of
            None \<Rightarrow> Inr (CHR 0x0A # ''.join(report)'', files)
          | Some path \<Rightarrow>
              if path = [] then Inr (CHR 0x0A # ''.join(report)'', files)
              else if CHR 0x00 \<in> set path then Inl ValueError
              else if w path
              then Inr (CHR 0x0A # ''.join(report)'',
                        files(path \<mapsto> join [CHR 0x0A] (report_lines f1 f4 results)))
              else Inl OSError)
     \<and> join [CHR 0x0A] (report_lines f1 f4 results) \<noteq> CHR 0x0A # ''.join(report)''
     \<and> ((\<exists>e. generate_report f1 f4 w m hits output_file files = Inl e)
          \<or> (\<exists>fs. generate_report f1 f4 w m hits output_file files
                      = Inr (CHR 0x0A # ''.join(report)'', fs)))"
proof -
  obtain d where d: "classify_proteins m hits = Some d"
    using classify_proteins_dict [of m hits] by blast
  have g: "generate_report f1 f4 w m hits output_file files =
         (case output_file of
            None \<Rightarrow> Inr (CHR 0x0A # ''.join(report)'', files)
          | Some path \<Rightarrow>
              if path = [] then Inr (CHR 0x0A # ''.join(report)'', files)
              else if CHR 0x00 \<in> set path then Inl ValueError
              else if w path
              then Inr (CHR 0x0A # ''.join(report)'',
                        files(path \<mapsto> join [CHR 0x0A] (report_lines f1 f4 d)))
              else Inl OSError)"
    by (simp add: generate_report_def write_file_def d Let_def split: option.splits)
  have "(\<exists>e. generate_report f1 f4 w m hits output_file files = Inl e)
          \<or> (\<exists>fs. generate_report f1 f4 w m hits output_file files
                      = Inr (CHR 0x0A # ''.join(report)'', fs))"
    unfolding g by (simp split: option.splits)
  then show ?thesis using d g report_text_not_literal by blast
qed

text \<open>A call that writes its report: the file receives it, the caller the fixed text.\<close>

theorem generate_report_returns_literal_witness:
  "map_sum id fst
     (generate_report fmt_none fmt_none all_writable [] [hit_ev (Fin 10)] (Some ''report.md'') Map.empty)
     = Inr (CHR 0x0A # ''.join(report)'')
   \<and> map_sum id fst
     (generate_report fmt_none fmt_none none_writable [] [hit_ev (Fin 10)] (Some ''report.md'') Map.empty)
     = Inl OSError"
proof -
  have a: "map_sum id fst
     (generate_report fmt_none fmt_none all_writable [] [hit_ev (Fin 10)] (Some ''report.md'') Map.empty)
     = Inr (CHR 0x0A # ''.join(report)'')"
    using generate_report_returns_literal
      [of "[]" "[hit_ev (Fin 10)]" fmt_none fmt_none all_writable "Some ''report.md''" Map.empty]
    by (auto simp: all_writable_def)
  have b: "map_sum id fst
     (generate_report fmt_none fmt_none none_writable [] [hit_ev (Fin 10)] (Some ''report.md'') Map.empty)
     = Inl OSError"
    using generate_report_returns_literal
      [of "[]" "[hit_ev (Fin 10)]" fmt_none fmt_none none_writable "Some ''report.md''" Map.empty]
    by (auto simp: none_writable_def)
  show ?thesis using a b by simp
qed

text \<open>
  The claim as first worded fails at a path with a NUL character, on any file
  system: nothing is returned.
\<close>

theorem generate_report_raises_counterexample:
  "generate_report fmt_none fmt_none all_writable [(''cas9'', ''Type II (Cas9)'')]
       [hit_ev (Fin 10)] (Some [CHR 0x00]) Map.empty = Inl ValueError
   \<and> generate_report fmt_none fmt_none all_writable [(''cas9'', ''Type II (Cas9)'')]
       [hit_ev (Fin 10)] (Some [CHR 0x00]) Map.empty \<noteq> Inr (CHR 0x0A # ''.join(report)'', Map.empty)"
proof -
  obtain d where d: "classify_proteins [(''cas9'', ''Type II (Cas9)'')] [hit_ev (Fin 10)] = Some d"
    using classify_proteins_dict by blast
  have "generate_report fmt_none fmt_none all_writable [(''cas9'', ''Type II (Cas9)'')]
       [hit_ev (Fin 10)] (Some [CHR 0x00]) Map.empty = Inl ValueError"
    by (simp add: generate_report_def write_file_def d Let_def)
  then show ?thesis by simp
qed


section \<open>Properties of the parser\<close>

lemma ws_fields_Nil: "dropWhile isspace s = [] \<Longrightarrow> ws_fields s = []"
  by (simp add: ws_fields.simps [of s])

lemma ws_fields_Cons:
  "dropWhile isspace s \<noteq> [] \<Longrightarrow>
     ws_fields s = takeWhile (\<lambda>c. \<not> isspace c) (dropWhile isspace s)
                  # ws_fields (dropWhile (\<lambda>c. \<not> isspace c) (dropWhile isspace s))"
  by (simp add: ws_fields.simps [of s])

lemma split_ws_length: "length (split_ws n s) = min (Suc n) (length (ws_fields s))"
proof (induction n arbitrary: s)
  case 0
  show ?case
  proof (cases "dropWhile isspace s = []")
    case True
    then show ?thesis by (simp add: ws_fields_Nil)
  next
    case False
    then show ?thesis by (simp add: ws_fields_Cons)
  qed
next
  case (Suc n)
  show ?case
  proof (cases "dropWhile isspace s = []")
    case True
    then show ?thesis by (simp add: ws_fields_Nil)
  next
    case False
    then show ?thesis using Suc.IH by (simp add: ws_fields_Cons Let_def)
  qed
qed

lemma split_ws_take: "take n (split_ws n s) = take n (ws_fields s)"
proof (induction n arbitrary: s)
  case 0
  show ?case by simp
next
  case (Suc n)
  show ?case
  proof (cases "dropWhile isspace s = []")
    case True
    then show ?thesis by (simp add: ws_fields_Nil)
  next
    case False
    then show ?thesis using Suc.IH by (simp add: ws_fields_Cons Let_def)
  qed
qed

lemma split_ws_nth:
  assumes "i < n"
  shows "split_ws n s ! i = ws_fields s ! i"
proof -
  have "split_ws n s ! i = take n (split_ws n s) ! i" using assms by simp
  also have "\<dots> = take n (ws_fields s) ! i" by (simp only: split_ws_take)
  also have "\<dots> = ws_fields s ! i" using assms by simp
  finally show ?thesis .
qed

lemma strip_empty: "strip s = [] \<longleftrightarrow> list_all isspace s"
proof
  assume "list_all isspace s"
  then have d: "dropWhile isspace s = []" by (simp add: list_all_iff)
  show "strip s = []" unfolding strip_def d by simp
next
  assume e: "strip s = []"
  show "list_all isspace s"
  proof (rule ccontr)
    assume "\<not> list_all isspace s"
    then have ne: "dropWhile isspace s \<noteq> []" by (simp add: list_all_iff)
    then have h: "\<not> isspace (hd (dropWhile isspace s))" by (rule hd_dropWhile)
    have "hd (dropWhile isspace s) \<in> set (rev (dropWhile isspace s))" using ne by simp
    then have "\<not> list_all isspace (rev (dropWhile isspace s))"
      using h by (auto simp: list_all_iff)
    then have "dropWhile isspace (rev (dropWhile isspace s)) \<noteq> []"
      by (simp add: list_all_iff)
    then show False using e unfolding strip_def by simp
  qed
qed

lemma parse_line_spec:
  "parse_line line hmm_name = (if yields_hit line then Some (spec_hit hmm_name line) else None)"
proof (cases "prefix ''#'' line \<or> strip line = []")
  case True
  then show ?thesis by (auto simp: parse_line_def yields_hit_def strip_empty)
next
  case False
  have "length (split_ws 22 line) = min 23 (length (ws_fields line))"
    by (simp add: split_ws_length)
  then have len: "length (split_ws 22 line) < 9 \<longleftrightarrow> length (ws_fields line) < 9"
    by linarith
  have n0: "split_ws 22 line ! 0 = ws_fields line ! 0" by (rule split_ws_nth) simp
  have n2: "split_ws 22 line ! 2 = ws_fields line ! 2" by (rule split_ws_nth) simp
  have n4: "split_ws 22 line ! 4 = ws_fields line ! 4" by (rule split_ws_nth) simp
  have n5: "split_ws 22 line ! 5 = ws_fields line ! 5" by (rule split_ws_nth) simp
  show ?thesis
    using False len
    by (simp add: parse_line_def yields_hit_def spec_hit_def strip_empty n0 n2 n4 n5 Let_def)
qed

lemma parse_loop_spec:
  "parse_loop lines hmm_name results = results @ map (spec_hit hmm_name) (filter yields_hit lines)"
  by (induction lines arbitrary: results) (simp_all add: parse_line_spec)

lemma parse_results_spec:
  "parse_results lines hmm_name = map (spec_hit hmm_name) (filter yields_hit lines)"
  by (simp add: parse_results_def parse_loop_spec)

lemma split_ws_numeral:
  "split_ws (numeral k) s =
     (let r = dropWhile isspace s
      in if r = [] then []
         else takeWhile (\<lambda>c. \<not> isspace c) r
                # split_ws (pred_numeral k) (dropWhile (\<lambda>c. \<not> isspace c) r))"
  by (simp add: numeral_eq_Suc)

lemma parse_results_scenario:
  "parse_results
     [''# target name  accession'', [],
      ''protA  -  cas9_hmm  -  1e-12  250.3  0.1  1e-12  250.3'',
      ''protB - cas9_hmm - 1e-3 2 0 0''] ''Cas9''
   = [\<lparr> query_name = ''protA'', target_name = ''cas9_hmm'', e_value = Fin (1 / 10 ^ 12),
         score = Fin (2503 / 10), hmm_model = ''Cas9'' \<rparr>]"
  by (simp add: parse_results_def parse_line_def split_ws_numeral isspace_def strip_def
      py_float_def sign_split_def parse_decimal_def parse_exponent_def isdigit_def
      digits_val_def digit_val_def scale10_def ascii_lower_def Let_def)

text \<open>
  Claim C8.  For every list of lines and every model name, \<open>parse_results\<close> returns,
  in the order of the lines, exactly one hit for each line that does not start
  with \<open>#\<close>, is not blank and has at least nine whitespace-separated fields, and
  no hit for any other line.  The hit takes its query name from field 0, its
  target name from field 2 (the model name when field 2 is \<open>-\<close>), its e-value from
  \<open>float\<close> of field 4 (plus infinity when that fails) and its score from \<open>float\<close>
  of field 5 (zero when that fails).  The split cuts at most 23 parts, whose
  first 22 are the fields of the line.  \<open>parse_results\<close> is a total function: every
  exception of the loop body is one of its branches, so it returns on every
  input.  The line of the scenario yields the hit the scenario names.
\<close>

theorem parse_results_one_hit_per_data_line:
  "parse_results lines hmm_name = spec_parse_results lines hmm_name
   \<and> length (parse_results lines hmm_name) = length (filter yields_hit lines)
   \<and> parse_results [line] hmm_name =
       (if prefix ''#'' line \<or> list_all isspace line \<or> length (ws_fields line) < 9 then []
        else [\<lparr> query_name = ws_fields line ! 0,
                target_name = (if ws_fields line ! 2 = ''-'' then hmm_name else ws_fields line ! 2),
                e_value = (case py_float (ws_fields line ! 4) of None \<Rightarrow> PInf | Some x \<Rightarrow> x),
                score = (case py_float (ws_fields line ! 5) of None \<Rightarrow> Fin 0 | Some x \<Rightarrow> x),
                hmm_model = hmm_name \<rparr>])
   \<and> length (split_ws 22 line) \<le> 23
   \<and> take 22 (split_ws 22 line) = take 22 (ws_fields line)
   \<and> parse_results
        [''# target name  accession'', [],
         ''protA  -  cas9_hmm  -  1e-12  250.3  0.1  1e-12  250.3'',
         ''protB - cas9_hmm - 1e-3 2 0 0''] ''Cas9''
      = [\<lparr> query_name = ''protA'', target_name = ''cas9_hmm'', e_value = Fin (1 / 10 ^ 12),
            score = Fin (2503 / 10), hmm_model = ''Cas9'' \<rparr>]"
proof -
  have a: "parse_results lines hmm_name = spec_parse_results lines hmm_name"
    by (simp add: parse_results_spec spec_parse_results_def)
  have b: "length (parse_results lines hmm_name) = length (filter yields_hit lines)"
    by (simp add: parse_results_spec)
  have c: "parse_results [line] hmm_name =
       (if prefix ''#'' line \<or> list_all isspace line \<or> length (ws_fields line) < 9 then []
        else [\<lparr> query_name = ws_fields line ! 0,
                target_name = (if ws_fields line ! 2 = ''-'' then hmm_name else ws_fields line ! 2),
                e_value = (case py_float (ws_fields line ! 4) of None \<Rightarrow> PInf | Some x \<Rightarrow> x),
                score = (case py_float (ws_fields line ! 5) of None \<Rightarrow> Fin 0 | Some x \<Rightarrow> x),
                hmm_model = hmm_name \<rparr>])"
    by (auto simp: parse_results_spec yields_hit_def spec_hit_def)
  have d: "length (split_ws 22 line) \<le> 23"
    by (simp add: split_ws_length)
  have e: "take 22 (split_ws 22 line) = take 22 (ws_fields line)"
    by (rule split_ws_take)
  show ?thesis using a b c d e parse_results_scenario by blast
qed


lemma ws_fields_no_space: "f \<in> set (ws_fields s) \<Longrightarrow> list_all (\<lambda>c. \<not> isspace c) f"
proof (induction s rule: ws_fields.induct)
  case (1 s)
  show ?case
  proof (cases "dropWhile isspace s = []")
    case True
    then show ?thesis using "1.prems" by (simp add: ws_fields_Nil)
  next
    case False
    then have "f = takeWhile (\<lambda>c. \<not> isspace c) (dropWhile isspace s)
               \<or> f \<in> set (ws_fields (dropWhile (\<lambda>c. \<not> isspace c) (dropWhile isspace s)))"
      using "1.prems" by (simp add: ws_fields_Cons)
    then show ?thesis
    proof
      assume "f = takeWhile (\<lambda>c. \<not> isspace c) (dropWhile isspace s)"
      then show ?thesis by (auto simp: list_all_iff dest: set_takeWhileD)
    next
      assume "f \<in> set (ws_fields (dropWhile (\<lambda>c. \<not> isspace c) (dropWhile isspace s)))"
      then show ?thesis using "1.IH" [OF False] by simp
    qed
  qed
qed

lemma dropWhile_no_space: "list_all (\<lambda>c. \<not> isspace c) f \<Longrightarrow> dropWhile isspace f = f"
  by (cases f) simp_all

lemma strip_no_space:
  assumes "list_all (\<lambda>c. \<not> isspace c) f"
  shows "strip f = f"
proof -
  have "list_all (\<lambda>c. \<not> isspace c) (rev f)" using assms by (simp add: list_all_iff)
  then have "dropWhile isspace (rev f) = rev f" by (rule dropWhile_no_space)
  then show ?thesis using assms by (simp add: strip_def dropWhile_no_space)
qed

lemma scale10_nonneg: "0 \<le> scale10 n k"
  by (simp add: scale10_def)

lemma parse_exponent_nonneg: "parse_exponent n fl r = Some x \<Longrightarrow> 0 \<le> x"
  by (auto simp: parse_exponent_def scale10_nonneg Let_def split: list.splits if_splits prod.splits)

lemma parse_decimal_nonneg: "parse_decimal body = Some x \<Longrightarrow> 0 \<le> x"
  by (auto simp: parse_decimal_def Let_def split: list.splits if_splits prod.splits
           dest: parse_exponent_nonneg)

lemma sign_split_neg:
  "sign_split u = (True, body) \<Longrightarrow> prefix ''-'' u"
  by (auto simp: sign_split_def split: list.splits if_splits)

lemma underscores_ok_filter_prefix:
  assumes "underscores_ok None t" "prefix ''-'' (filter (\<lambda>c. c \<noteq> CHR ''_'') t)"
  shows "prefix ''-'' t"
proof (cases t)
  case Nil
  then show ?thesis using assms by simp
next
  case (Cons c cs)
  then have "c \<noteq> CHR ''_''" using assms(1) by (auto split: if_splits)
  then show ?thesis using assms(2) Cons by simp
qed

lemma py_float_nonneg:
  assumes "py_float s = Some x" "\<not> prefix ''-'' (strip s)"
  shows "x = NaN \<or> fle (Fin 0) x"
proof -
  let ?t = "strip s"
  let ?u = "filter (\<lambda>c. c \<noteq> CHR ''_'') ?t"
  have ok: "underscores_ok None ?t"
    using assms(1) by (auto simp: py_float_def Let_def split: if_splits)
  obtain neg body where sp: "sign_split ?u = (neg, body)" by (cases "sign_split ?u")
  have "\<not> neg"
  proof
    assume neg
    then have "sign_split ?u = (True, body)" using sp by simp
    then have "prefix ''-'' ?u" by (rule sign_split_neg)
    then have "prefix ''-'' ?t" using ok by (rule underscores_ok_filter_prefix [rotated])
    then show False using assms(2) by simp
  qed
  then show ?thesis
    using assms(1) ok sp
    by (auto simp: py_float_def Let_def split: if_splits option.splits dest: parse_decimal_nonneg)
qed


lemma ascii_lower_n: "ascii_lower a = CHR ''n'' \<Longrightarrow> a = CHR ''n'' \<or> a = CHR ''N''"
proof -
  assume h: "ascii_lower a = CHR ''n''"
  show ?thesis
  proof (cases "65 \<le> (of_char a :: nat) \<and> (of_char a :: nat) \<le> 90")
    case False
    then show ?thesis using h by (auto simp: ascii_lower_def Let_def)
  next
    case True
    then have "char_of ((of_char a :: nat) + 32) = CHR ''n''"
      using h by (simp add: ascii_lower_def Let_def)
    then have "(of_char (char_of ((of_char a :: nat) + 32) :: char) :: nat) = of_char CHR ''n''"
      by simp
    then have "((of_char a :: nat) + 32) mod 256 = 110" by (simp add: of_char_of)
    then have "(of_char a :: nat) = 78" using True by simp
    then have "(of_char a :: nat) = of_char CHR ''N''" by simp
    then have "a = CHR ''N''" by (simp only: of_char_eq_iff)
    then show ?thesis by simp
  qed
qed

lemma sign_split_set: "sign_split u = (neg, body) \<Longrightarrow> set body \<subseteq> set u"
  by (auto simp: sign_split_def split: list.splits if_splits)

lemma set_strip: "set (strip s) \<subseteq> set s"
proof -
  have "set (dropWhile isspace (rev (dropWhile isspace s))) \<subseteq> set (rev (dropWhile isspace s))"
    by (rule set_dropWhileD [THEN subsetI])
  also have "\<dots> \<subseteq> set s" using set_dropWhileD [of _ isspace s] by auto
  finally show ?thesis by (simp add: strip_def)
qed

lemma py_float_NaN:
  assumes "py_float s = Some NaN"
  shows "CHR ''n'' \<in> set s \<or> CHR ''N'' \<in> set s"
proof -
  let ?t = "strip s"
  let ?u = "filter (\<lambda>c. c \<noteq> CHR ''_'') ?t"
  obtain neg body where sp: "sign_split ?u = (neg, body)" by (cases "sign_split ?u")
  have "map ascii_lower body = ''nan''"
    using assms sp
    by (auto simp: py_float_def Let_def split: if_splits option.splits)
  then obtain a r where b: "body = a # r" and a: "ascii_lower a = CHR ''n''"
    by (cases body) auto
  have "a \<in> set body" using b by simp
  then have "a \<in> set ?u" using sign_split_set [OF sp] by blast
  then have "a \<in> set ?t" by simp
  then have "a \<in> set s" using set_strip by blast
  then show ?thesis using ascii_lower_n [OF a] by auto
qed

lemma yields_hit_field:
  assumes "yields_hit line" "i < 9"
  shows "strip (ws_fields line ! i) = ws_fields line ! i"
proof -
  have "i < length (ws_fields line)" using assms by (simp add: yields_hit_def)
  then have "ws_fields line ! i \<in> set (ws_fields line)" by simp
  then show ?thesis using ws_fields_no_space strip_no_space by blast
qed

lemma spec_hit_e_value:
  assumes "yields_hit line"
  shows "e_value (spec_hit hmm_name line)
           = (case py_float (ws_fields line ! 4) of None \<Rightarrow> PInf | Some x \<Rightarrow> x)"
    and "py_float (ws_fields line ! 4) = None \<Longrightarrow> e_value (spec_hit hmm_name line) = PInf"
    and "\<not> prefix ''-'' (ws_fields line ! 4) \<Longrightarrow>
           e_value (spec_hit hmm_name line) = NaN \<or> fle (Fin 0) (e_value (spec_hit hmm_name line))"
    and "e_value (spec_hit hmm_name line) = NaN \<Longrightarrow>
           CHR ''n'' \<in> set (ws_fields line ! 4) \<or> CHR ''N'' \<in> set (ws_fields line ! 4)"
proof -
  show "e_value (spec_hit hmm_name line)
           = (case py_float (ws_fields line ! 4) of None \<Rightarrow> PInf | Some x \<Rightarrow> x)"
    by (simp add: spec_hit_def)
  show "py_float (ws_fields line ! 4) = None \<Longrightarrow> e_value (spec_hit hmm_name line) = PInf"
    by (simp add: spec_hit_def)
  have st: "strip (ws_fields line ! 4) = ws_fields line ! 4"
    using assms by (rule yields_hit_field) simp
  show "e_value (spec_hit hmm_name line) = NaN \<or> fle (Fin 0) (e_value (spec_hit hmm_name line))"
    if "\<not> prefix ''-'' (ws_fields line ! 4)"
  proof (cases "py_float (ws_fields line ! 4)")
    case None
    then show ?thesis by (simp add: spec_hit_def)
  next
    case (Some x)
    then have "x = NaN \<or> fle (Fin 0) x" using that st py_float_nonneg [of "ws_fields line ! 4" x] by simp
    then show ?thesis using Some by (simp add: spec_hit_def)
  qed
  show "CHR ''n'' \<in> set (ws_fields line ! 4) \<or> CHR ''N'' \<in> set (ws_fields line ! 4)"
    if "e_value (spec_hit hmm_name line) = NaN"
  proof (cases "py_float (ws_fields line ! 4)")
    case None
    then show ?thesis using that by (simp add: spec_hit_def)
  next
    case (Some x)
    then have "py_float (ws_fields line ! 4) = Some NaN" using that by (simp add: spec_hit_def)
    then show ?thesis by (rule py_float_NaN)
  qed
qed

text \<open>
  Claim C9, amended.  The hits of \<open>parse_results\<close> pair off, in order, with the
  lines that yield a hit, and the e-value of each hit is \<open>float\<close> of field 4 of its
  line, or plus infinity when field 4 does not parse.  Whenever field 4 does not
  begin with a minus sign the e-value is at least zero or NaN, and it is NaN only
  when field 4 holds the letter \<open>n\<close> or \<open>N\<close>, as every spelling of \<open>nan\<close> does.
  Nothing checks the sign, so a field 4 that begins with a minus sign gives a
  negative e-value.
\<close>

theorem e_value_is_parsed_field_4:
  "list_all2
     (\<lambda>h line.
        e_value h = (case py_float (ws_fields line ! 4) of None \<Rightarrow> PInf | Some x \<Rightarrow> x)
        \<and> (py_float (ws_fields line ! 4) = None \<longrightarrow> e_value h = PInf)
        \<and> (\<not> prefix ''-'' (ws_fields line ! 4) \<longrightarrow> e_value h = NaN \<or> fle (Fin 0) (e_value h))
        \<and> (e_value h = NaN \<longrightarrow>
              CHR ''n'' \<in> set (ws_fields line ! 4) \<or> CHR ''N'' \<in> set (ws_fields line ! 4)))
     (parse_results lines hmm_name) (filter yields_hit lines)"
proof -
  have "list_all2
     (\<lambda>h line.
        e_value h = (case py_float (ws_fields line ! 4) of None \<Rightarrow> PInf | Some x \<Rightarrow> x)
        \<and> (py_float (ws_fields line ! 4) = None \<longrightarrow> e_value h = PInf)
        \<and> (\<not> prefix ''-'' (ws_fields line ! 4) \<longrightarrow> e_value h = NaN \<or> fle (Fin 0) (e_value h))
        \<and> (e_value h = NaN \<longrightarrow>
              CHR ''n'' \<in> set (ws_fields line ! 4) \<or> CHR ''N'' \<in> set (ws_fields line ! 4)))
     (map (spec_hit hmm_name) (filter yields_hit lines)) (filter yields_hit lines)"
    unfolding list_all2_map1
  proof (rule list_all2_same [THEN iffD2], rule ballI)
    fix line
    assume "line \<in> set (filter yields_hit lines)"
    then have y: "yields_hit line" by simp
    show "e_value (spec_hit hmm_name line)
            = (case py_float (ws_fields line ! 4) of None \<Rightarrow> PInf | Some x \<Rightarrow> x)
        \<and> (py_float (ws_fields line ! 4) = None \<longrightarrow> e_value (spec_hit hmm_name line) = PInf)
        \<and> (\<not> prefix ''-'' (ws_fields line ! 4) \<longrightarrow>
              e_value (spec_hit hmm_name line) = NaN \<or> fle (Fin 0) (e_value (spec_hit hmm_name line)))
        \<and> (e_value (spec_hit hmm_name line) = NaN \<longrightarrow>
              CHR ''n'' \<in> set (ws_fields line ! 4) \<or> CHR ''N'' \<in> set (ws_fields line ! 4))"
      using spec_hit_e_value [OF y, of hmm_name] by blast
  qed
  then show ?thesis by (simp only: parse_results_spec)
qed


subsection \<open>Concrete runs of the parser\<close>

lemma ws_fields_sample:
  "ws_fields ''pB - c9 - 1e-3 2 0 0 0''
     = [''pB'', ''-'', ''c9'', ''-'', ''1e-3'', ''2'', ''0'', ''0'', ''0'']"
  by (simp add: ws_fields.simps isspace_def)

lemma ws_fields_sample_bad:
  "ws_fields ''pC - c9 - n/a 2 0 0 0''
     = [''pC'', ''-'', ''c9'', ''-'', ''n/a'', ''2'', ''0'', ''0'', ''0'']"
  by (simp add: ws_fields.simps isspace_def)

lemma ws_fields_sample_nan:
  "ws_fields ''pD - c9 - nan 2 0 0 0''
     = [''pD'', ''-'', ''c9'', ''-'', ''nan'', ''2'', ''0'', ''0'', ''0'']"
  by (simp add: ws_fields.simps isspace_def)

theorem e_value_is_parsed_field_4_witness:
  "filter yields_hit [''pB - c9 - 1e-3 2 0 0 0'', ''pC - c9 - n/a 2 0 0 0'', ''pD - c9 - nan 2 0 0 0'']
     = [''pB - c9 - 1e-3 2 0 0 0'', ''pC - c9 - n/a 2 0 0 0'', ''pD - c9 - nan 2 0 0 0'']
   \<and> \<not> prefix ''-'' (ws_fields ''pB - c9 - 1e-3 2 0 0 0'' ! 4)
   \<and> py_float (ws_fields ''pC - c9 - n/a 2 0 0 0'' ! 4) = None
   \<and> CHR ''n'' \<in> set (ws_fields ''pD - c9 - nan 2 0 0 0'' ! 4)
   \<and> map e_value
        (parse_results
           [''pB - c9 - 1e-3 2 0 0 0'', ''pC - c9 - n/a 2 0 0 0'', ''pD - c9 - nan 2 0 0 0'']
           ''cas9'')
      = [Fin (1 / 10 ^ 3), PInf, NaN]
   \<and> fle (Fin 0) (Fin (1 / 10 ^ 3)) \<and> fle (Fin 0) PInf"
proof -
  let ?a = "''pB - c9 - 1e-3 2 0 0 0''"
  let ?b = "''pC - c9 - n/a 2 0 0 0''"
  let ?c = "''pD - c9 - nan 2 0 0 0''"
  have ya: "yields_hit ?a" by (simp add: yields_hit_def ws_fields_sample isspace_def)
  have yb: "yields_hit ?b" by (simp add: yields_hit_def ws_fields_sample_bad isspace_def)
  have yc: "yields_hit ?c" by (simp add: yields_hit_def ws_fields_sample_nan isspace_def)
  have f: "filter yields_hit [?a, ?b, ?c] = [?a, ?b, ?c]" using ya yb yc by simp
  have pa: "py_float ''1e-3'' = Some (Fin (1 / 10 ^ 3))"
    by (simp add: py_float_def strip_def isspace_def sign_split_def parse_decimal_def
        parse_exponent_def isdigit_def digits_val_def digit_val_def scale10_def ascii_lower_def Let_def)
  have pb: "py_float ''n/a'' = None"
    by (simp add: py_float_def strip_def isspace_def sign_split_def parse_decimal_def
        parse_exponent_def isdigit_def digits_val_def digit_val_def scale10_def ascii_lower_def Let_def)
  have pc: "py_float ''nan'' = Some NaN"
    by (simp add: py_float_def strip_def isspace_def sign_split_def parse_decimal_def
        parse_exponent_def isdigit_def digits_val_def digit_val_def scale10_def ascii_lower_def Let_def)
  have na: "\<not> prefix ''-'' (ws_fields ?a ! 4)" by (simp add: ws_fields_sample)
  have nb: "py_float (ws_fields ?b ! 4) = None" by (simp add: ws_fields_sample_bad pb)
  define P where "P = (\<lambda>(h :: hit) line.
        e_value h = (case py_float (ws_fields line ! 4) of None \<Rightarrow> PInf | Some x \<Rightarrow> x)
        \<and> (py_float (ws_fields line ! 4) = None \<longrightarrow> e_value h = PInf)
        \<and> (\<not> prefix ''-'' (ws_fields line ! 4) \<longrightarrow> e_value h = NaN \<or> fle (Fin 0) (e_value h))
        \<and> (e_value h = NaN \<longrightarrow>
              CHR ''n'' \<in> set (ws_fields line ! 4) \<or> CHR ''N'' \<in> set (ws_fields line ! 4)))"
  have "list_all2 P (parse_results [?a, ?b, ?c] ''cas9'') (filter yields_hit [?a, ?b, ?c])"
    unfolding P_def by (rule e_value_is_parsed_field_4)
  then have "list_all2 P (parse_results [?a, ?b, ?c] ''cas9'') [?a, ?b, ?c]"
    by (simp only: f)
  then obtain h1 h2 h3 where p: "parse_results [?a, ?b, ?c] ''cas9'' = [h1, h2, h3]"
    and q1: "P h1 ?a" and q2: "P h2 ?b" and q3: "P h3 ?c"
    by (auto simp only: list_all2_Cons2 list_all2_Nil2)
  have e1: "e_value h1 = (case py_float (ws_fields ?a ! 4) of None \<Rightarrow> PInf | Some x \<Rightarrow> x)"
    and n1: "\<not> prefix ''-'' (ws_fields ?a ! 4) \<longrightarrow> e_value h1 = NaN \<or> fle (Fin 0) (e_value h1)"
    and c1: "e_value h1 = NaN \<longrightarrow>
              CHR ''n'' \<in> set (ws_fields ?a ! 4) \<or> CHR ''N'' \<in> set (ws_fields ?a ! 4)"
    using q1 unfolding P_def by blast+
  have e2: "py_float (ws_fields ?b ! 4) = None \<longrightarrow> e_value h2 = PInf"
    using q2 unfolding P_def by blast
  have e3: "e_value h3 = (case py_float (ws_fields ?c ! 4) of None \<Rightarrow> PInf | Some x \<Rightarrow> x)"
    and c3: "e_value h3 = NaN \<longrightarrow>
              CHR ''n'' \<in> set (ws_fields ?c ! 4) \<or> CHR ''N'' \<in> set (ws_fields ?c ! 4)"
    using q3 unfolding P_def by blast+
  have v1: "e_value h1 = Fin (1 / 10 ^ 3)" using e1 by (simp add: ws_fields_sample pa)
  have "e_value h1 \<noteq> NaN" using c1 by (auto simp: ws_fields_sample)
  then have g1: "fle (Fin 0) (e_value h1)" using n1 na by blast
  have v2: "e_value h2 = PInf" using e2 nb by blast
  have v3: "e_value h3 = NaN" using e3 by (simp add: ws_fields_sample_nan pc)
  then have "CHR ''n'' \<in> set (ws_fields ?c ! 4) \<or> CHR ''N'' \<in> set (ws_fields ?c ! 4)"
    using c3 by blast
  then have m3: "CHR ''n'' \<in> set (ws_fields ?c ! 4)" by (simp add: ws_fields_sample_nan)
  have g: "fle (Fin 0) (Fin (1 / 10 ^ 3))" using g1 v1 by simp
  have ev: "map e_value (parse_results [?a, ?b, ?c] ''cas9'') = [Fin (1 / 10 ^ 3), PInf, NaN]"
    unfolding p using v1 v2 v3 by simp
  have gi: "fle (Fin 0) PInf" by simp
  show ?thesis using f na nb m3 ev g gi by blast
qed

text \<open>The claim as first worded fails at a field 4 of \<open>-1\<close>.\<close>

theorem negative_e_value_counterexample:
  "map e_value (parse_results [''pA - c9 - -1 2 0 0 0''] ''cas9'') = [Fin (- 1)]
   \<and> \<not> fle (Fin 0) (Fin (- 1))"
  by (simp add: parse_results_def parse_line_def split_ws_numeral isspace_def strip_def
      py_float_def sign_split_def parse_decimal_def parse_exponent_def isdigit_def
      digits_val_def digit_val_def scale10_def ascii_lower_def Let_def)


section \<open>Properties of the search dispatcher\<close>









end
